theory Spec2Isabelle
  imports
    Main
    "HOL-Library.Multiset"
    "HOL-Library.Char_ord"
    "HOL-Library.List_Lexorder"
begin

section \<open>Strings: the Go library functions used by runtime/service.go\<close>

text \<open>
  A Go string is a sequence of bytes, modelled as \<^typ>\<open>string\<close> (a list of 8-bit characters).
  Go compares strings byte by byte, a proper prefix being smaller; that is the order
  which \<open>List_Lexorder\<close> and \<open>Char_ord\<close> put on \<^typ>\<open>string\<close>.
\<close>

definition nl :: string where
  "nl = [CHR 0x0A]"

definition tab :: string where
  "tab = [CHR 0x09]"

text \<open>\<open>strings.HasPrefix(s, prefix)\<close>: \<open>len(s) >= len(prefix) && s[0:len(prefix)] == prefix\<close>.\<close>

definition HasPrefix :: "string \<Rightarrow> string \<Rightarrow> bool" where
  "HasPrefix s p = (length p \<le> length s \<and> take (length p) s = p)"

text \<open>
  \<open>strings.Split(s, ",")\<close> cuts at every comma and keeps the empty pieces; the
  result has one piece more than there are commas, so \<open>Split("")\<close> is \<open>[""]\<close>.
\<close>

fun Split :: "string \<Rightarrow> char \<Rightarrow> string list" where
  "Split [] sep = [[]]"
| "Split (c # s) sep =
     (if c = sep then [] # Split s sep
      else (c # hd (Split s sep)) # tl (Split s sep))"

text \<open>
  \<open>strings.TrimSpace\<close> removes the leading and the trailing white space runes, as
  \<open>unicode.IsSpace\<close> defines them. \<open>space_runes\<close> lists their UTF-8 encodings: the six
  ASCII ones, U+0085, U+00A0, U+1680, U+2000 to U+200A, U+2028, U+2029, U+202F, U+205F
  and U+3000.
\<close>

definition space_runes :: "string list" where
  "space_runes =
    [[CHR 0x09], [CHR 0x0A], [CHR 0x0B], [CHR 0x0C], [CHR 0x0D], [CHR 0x20],
     [CHR 0xC2, CHR 0x85], [CHR 0xC2, CHR 0xA0],
     [CHR 0xE1, CHR 0x9A, CHR 0x80],
     [CHR 0xE2, CHR 0x80, CHR 0x80], [CHR 0xE2, CHR 0x80, CHR 0x81],
     [CHR 0xE2, CHR 0x80, CHR 0x82], [CHR 0xE2, CHR 0x80, CHR 0x83],
     [CHR 0xE2, CHR 0x80, CHR 0x84], [CHR 0xE2, CHR 0x80, CHR 0x85],
     [CHR 0xE2, CHR 0x80, CHR 0x86], [CHR 0xE2, CHR 0x80, CHR 0x87],
     [CHR 0xE2, CHR 0x80, CHR 0x88], [CHR 0xE2, CHR 0x80, CHR 0x89],
     [CHR 0xE2, CHR 0x80, CHR 0x8A],
     [CHR 0xE2, CHR 0x80, CHR 0xA8], [CHR 0xE2, CHR 0x80, CHR 0xA9],
     [CHR 0xE2, CHR 0x80, CHR 0xAF],
     [CHR 0xE2, CHR 0x81, CHR 0x9F],
     [CHR 0xE3, CHR 0x80, CHR 0x80]]"

text \<open>The white space rune a string starts with, if any.\<close>

definition leading_rune :: "string list \<Rightarrow> string \<Rightarrow> string option" where
  "leading_rune ws s = find (\<lambda>r. r \<noteq> [] \<and> HasPrefix s r) ws"

function TrimLeft :: "string list \<Rightarrow> string \<Rightarrow> string" where
  "TrimLeft ws s =
     (case leading_rune ws s of
        None \<Rightarrow> s
      | Some r \<Rightarrow> TrimLeft ws (drop (length r) s))"
  by pat_completeness auto
termination
proof (relation "measure (\<lambda>(ws, s). length s)")
  fix ws :: "string list" and s r :: string
  assume "leading_rune ws s = Some r"
  then have "r \<noteq> []" and "length r \<le> length s"
    by (auto simp: leading_rune_def find_Some_iff HasPrefix_def)
  then have "length s - length r < length s"
    by (cases r) auto
  then show "((ws, drop (length r) s), (ws, s)) \<in> measure (\<lambda>(ws, s). length s)"
    by simp
qed simp

declare TrimLeft.simps [simp del]

text \<open>Trailing runes are leading runes of the reversed string, read backwards.\<close>

definition TrimSpace :: "string \<Rightarrow> string" where
  "TrimSpace s = rev (TrimLeft (map rev space_runes) (rev (TrimLeft space_runes s)))"

text \<open>
  \<open>filepath.Base\<close> with the separator \<open>/\<close> and no volume name (every platform but
  Windows): the empty path gives \<open>.\<close>, trailing separators are dropped, the text after the
  last separator is kept, and a path of separators only gives \<open>/\<close>.
\<close>

definition Base :: "string \<Rightarrow> string" where
  "Base path =
     (if path = [] then ''.''
      else
        let stripped = rev (dropWhile (\<lambda>c. c = CHR ''/'') (rev path));
            element = rev (takeWhile (\<lambda>c. c \<noteq> CHR ''/'') (rev stripped))
        in if element = [] then ''/'' else element)"

section \<open>The data the commands work on\<close>

text \<open>
  \<open>runtime.Service\<close> of go-micro. A Go map read at a missing key gives the empty
  string, which \<open>meta\<close> writes out.
\<close>

record service =
  Name :: string
  Version :: string
  Source :: string
  Metadata :: "string \<rightharpoonup> string"

definition meta :: "service \<Rightarrow> string \<Rightarrow> string" where
  "meta s k = (case Metadata s k of None \<Rightarrow> [] | Some v \<Rightarrow> v)"

text \<open>What a command reads from its \<open>cli.Context\<close>: the positional arguments and the flags.\<close>

record cli_context =
  Args :: "string list"
  name_flag :: string
  version_flag :: string
  source_flag :: string
  env_flag :: "string list"
  local_flag :: bool
  runtime_flag :: bool

type_synonym error = string

datatype signal = SIGTERM | SIGINT | SIGQUIT

text \<open>
  Everything outside the command that it reads or that answers it. A command issues
  each operation at most once, so one answer per operation describes an invocation.
  \<open>getwd\<close> is the directory \<open>os.Getwd\<close> returns (empty when it fails, the error
  being dropped); \<open>shutdown\<close> is the signal the channel delivers, \<open>None\<close> when none
  ever arrives. The services a backend returns are taken to be non-nil pointers.
\<close>

record world =
  environ :: "string list"
  getwd :: string
  chdir_err :: "error option"
  init_err :: "error option"
  start_err :: "error option"
  create_err :: "error option"
  shutdown :: "signal option"
  delete_err :: "error option"
  stop_err :: "error option"
  list_resp :: "error + service list"
  read_resp :: "error + service list"

datatype backend = Local | Remote

datatype read_option = ReadService string | ReadVersion string | ReadType string

text \<open>
  The effects of a command, in the order it performs them. \<open>Stdout\<close> carries the bytes
  written to standard output, \<open>TabWrite\<close> the text handed to the tabwriter and
  \<open>TabFlush\<close> its flush; \<open>UseBackend\<close> is the choice of \<open>r\<close>, \<open>InitNotifier\<close> the call
  \<open>r.Init(runtime.WithNotifier(notifier.New(name, version, source)))\<close>, and
  \<open>Create\<close> carries the service, the command and the environment.
\<close>

datatype event =
    PluginsInit
  | Stdout string
  | UseBackend backend
  | Chdir string
  | InitNotifier string string string
  | Start
  | Create service "string list" "string list"
  | Notify
  | Receive signal
  | Delete service
  | Stop
  | List
  | Read "read_option list"
  | TabWrite string
  | TabFlush

text \<open>A command either returns or stays blocked on the channel for ever.\<close>

datatype outcome = Returned | Blocked

definition RunUsage :: string where
  "RunUsage = ''Required usage: micro run service --name example --version latest --source go/package/import/path''"

definition KillUsage :: string where
  "KillUsage = ''Require usage: micro kill service --name example (optional: --version latest)''"

definition GetUsage :: string where
  "GetUsage = ''Require usage: micro ps service --name example (optional: --version latest)''"

section \<open>runService\<close>

text \<open>\<open>defaultEnv\<close>: the loop over \<open>os.Environ()\<close>, appending the variables that start with \<open>MICRO_\<close>.\<close>

fun defaultEnv_loop :: "string list \<Rightarrow> string list \<Rightarrow> string list" where
  "defaultEnv_loop env [] = env"
| "defaultEnv_loop env (evar # rest) =
     defaultEnv_loop (if HasPrefix evar ''MICRO_'' then env @ [evar] else env) rest"

definition defaultEnv :: "world \<Rightarrow> string list" where
  "defaultEnv w = defaultEnv_loop [] (environ w)"

text \<open>Lines 130 to 136: the inner loop over the pieces of one flag value, and the outer loop over the flag values.\<close>

fun env_pieces :: "string list \<Rightarrow> string list \<Rightarrow> string list" where
  "env_pieces environment [] = environment"
| "env_pieces environment (e # es) =
     env_pieces (if length e > 0 then environment @ [TrimSpace e] else environment) es"

fun env_flags :: "string list \<Rightarrow> string list \<Rightarrow> string list" where
  "env_flags environment [] = environment"
| "env_flags environment (evar # rest) =
     env_flags (env_pieces environment (Split evar (CHR '',''))) rest"

definition compose_env :: "world \<Rightarrow> string list \<Rightarrow> string list" where
  "compose_env w env = env_flags (defaultEnv w) env"

text \<open>Lines 57 and 63 to 65: the first argument is the source unless it is the word \<open>service\<close>.\<close>

definition resolve_source :: "string list \<Rightarrow> string \<Rightarrow> string" where
  "resolve_source args source =
     (case args of [] \<Rightarrow> source | v # _ \<Rightarrow> if v \<noteq> ''service'' then v else source)"

text \<open>Lines 71 to 78.\<close>

definition resolve_name :: "world \<Rightarrow> string \<Rightarrow> string \<Rightarrow> string" where
  "resolve_name w name source =
     (if length name = 0
      then (if length source > 0 then Base source else Base (getwd w))
      else name)"

text \<open>
  The switch on \<open>local\<close> (lines 81 to 112) either returns early, \<open>Inl\<close> of the trace, or
  falls through with the trace so far and the command, \<open>Inr\<close>.
\<close>

definition select_backend ::
  "world \<Rightarrow> bool \<Rightarrow> string \<Rightarrow> string \<Rightarrow> string \<Rightarrow> event list + (event list \<times> string list)" where
  "select_backend w local name version source =
     (if local then
        let exec = [''go'', ''run'', ''.''];
            (t, exec) =
              (if length source > 0
               then ([UseBackend Local, Chdir source],
                     case chdir_err w of Some err \<Rightarrow> exec[2 := source] | None \<Rightarrow> exec)
               else ([UseBackend Local], exec))
        in (case init_err w of
              Some err \<Rightarrow>
                Inl (t @ [InitNotifier name version source, Stdout (''Could not start notifier: '' @ err)])
            | None \<Rightarrow> Inr (t @ [InitNotifier name version source], exec))
      else if length source = 0 then Inl [UseBackend Remote, Stdout (RunUsage @ nl)]
      else Inr ([UseBackend Remote], [''go'', ''run'', source]))"

text \<open>Lines 152 to 170: the wait for a signal and the teardown, in local mode.\<close>

definition await_shutdown :: "world \<Rightarrow> service \<Rightarrow> event list \<times> outcome" where
  "await_shutdown w svc =
     (case shutdown w of
        None \<Rightarrow> ([Notify], Blocked)
      | Some sg \<Rightarrow>
          (case delete_err w of
             Some err \<Rightarrow> ([Notify, Receive sg, Delete svc, Stdout (err @ nl)], Returned)
           | None \<Rightarrow>
               (case stop_err w of
                  Some err \<Rightarrow> ([Notify, Receive sg, Delete svc, Stop, Stdout (err @ nl)], Returned)
                | None \<Rightarrow> ([Notify, Receive sg, Delete svc, Stop], Returned))))"

definition runService :: "world \<Rightarrow> cli_context \<Rightarrow> event list \<times> outcome" where
  "runService w ctx =
     (if length (Args ctx) = 0 then ([PluginsInit, Stdout (RunUsage @ nl)], Returned)
      else
        let name = name_flag ctx;
            version = version_flag ctx;
            source = resolve_source (Args ctx) (source_flag ctx);
            env = env_flag ctx;
            local = local_flag ctx;
            name = resolve_name w name source
        in (case select_backend w local name version source of
              Inl t \<Rightarrow> (PluginsInit # t, Returned)
            | Inr (t, exec) \<Rightarrow>
                (case start_err w of
                   Some err \<Rightarrow> (PluginsInit # t @ [Start, Stdout (''Could not start: '' @ err)], Returned)
                 | None \<Rightarrow>
                     let svc = \<lparr>Name = name, Version = version, Source = source, Metadata = Map.empty\<rparr>;
                         environment = compose_env w env;
                         t = PluginsInit # t @ [Start, Create svc exec environment]
                     in (case create_err w of
                           Some err \<Rightarrow> (t @ [Stdout (err @ nl)], Returned)
                         | None \<Rightarrow>
                             if local
                             then (let (t', out) = await_shutdown w svc in (t @ t', out))
                             else (t, Returned)))))"

section \<open>killService\<close>

definition killService :: "world \<Rightarrow> cli_context \<Rightarrow> event list" where
  "killService w ctx =
     (case Args ctx of
        [] \<Rightarrow> [Stdout (KillUsage @ nl)]
      | v # _ \<Rightarrow>
          if v \<noteq> ''service'' then [Stdout (KillUsage @ nl)]
          else
            let name = name_flag ctx;
                version = version_flag ctx;
                local = local_flag ctx
            in if length name = 0 then [Stdout (KillUsage @ nl)]
               else
                 let r = (if local then Local else Remote);
                     svc = \<lparr>Name = name, Version = version, Source = [], Metadata = Map.empty\<rparr>
                 in (case delete_err w of
                       Some err \<Rightarrow> [UseBackend r, Delete svc, Stdout (err @ nl)]
                     | None \<Rightarrow> [UseBackend r, Delete svc]))"

section \<open>getService\<close>

text \<open>The closure \<open>parse\<close> (lines 273 to 278).\<close>

definition parse :: "string \<Rightarrow> string" where
  "parse m = (if length m = 0 then ''n/a'' else m)"

text \<open>
  The six operands of the \<open>Fprintf\<close> of a row (lines 291 to 296), and the text the format
  \<open>"%s\t%s\t%s\t%s\t%s\t%s\n"\<close> makes of them.
\<close>

definition row_fields :: "service \<Rightarrow> string list" where
  "row_fields s =
     [Name s,
      parse (Version s),
      parse (Source s),
      parse (meta s ''status''),
      parse (meta s ''build''),
      ''owner='' @ parse (meta s ''owner'') @ '',group='' @ parse (meta s ''group'')]"

fun tab_separated :: "string list \<Rightarrow> string" where
  "tab_separated [] = nl"
| "tab_separated [f] = f @ nl"
| "tab_separated (f # fs) = f @ tab @ tab_separated fs"

definition row_line :: "service \<Rightarrow> string" where
  "row_line s = tab_separated (row_fields s)"

definition header :: string where
  "header = ''NAME'' @ tab @ ''VERSION'' @ tab @ ''SOURCE'' @ tab @ ''STATUS'' @ tab @ ''BUILD'' @ tab @ ''METADATA''"

text \<open>
  Lines 280 to 298. \<open>sort.Slice(x, less)\<close> belongs to the Go library: it reorders the
  slice so that \<open>less\<close> holds of no element and an earlier one, and promises nothing on
  the order of elements that \<open>less\<close> does not separate. The routine is the parameter
  \<open>srt\<close>, applied to the comparison of line 285,
  \<open>services[i].Name < services[j].Name\<close>.
\<close>

definition less_name :: "service \<Rightarrow> service \<Rightarrow> bool" where
  "less_name si sj = (Name si < Name sj)"

definition render ::
  "((service \<Rightarrow> service \<Rightarrow> bool) \<Rightarrow> service list \<Rightarrow> service list) \<Rightarrow> service list \<Rightarrow> event list" where
  "render srt services =
     (if length services = 0 then []
      else TabWrite (header @ nl) #
           map (\<lambda>s. TabWrite (row_line s)) (srt less_name services) @ [TabFlush])"

text \<open>
  Lines 224 to 264: what is asked of the backend, \<open>None\<close> when the command returns with the
  usage message instead.
\<close>

definition query :: "world \<Rightarrow> cli_context \<Rightarrow> event list \<times> (error + service list) option" where
  "query w ctx =
     (let name = name_flag ctx;
          version = version_flag ctx;
          runType = runtime_flag ctx;
          list = (case Args ctx of [] \<Rightarrow> True | v # _ \<Rightarrow> v \<noteq> ''service'')
      in if list then
           (if runType then ([Read [ReadType ''runtime'']], Some (read_resp w))
            else ([List], Some (list_resp w)))
         else if length name = 0 then ([Stdout (GetUsage @ nl)], None)
         else
           let opts = [ReadService name, ReadVersion version];
               opts = (if runType then opts @ [ReadType ''runtime''] else opts)
           in ([Read opts], Some (read_resp w)))"

definition getService ::
  "((service \<Rightarrow> service \<Rightarrow> bool) \<Rightarrow> service list \<Rightarrow> service list) \<Rightarrow> world \<Rightarrow> cli_context \<Rightarrow> event list" where
  "getService srt w ctx =
     (let r = (if local_flag ctx then Local else Remote)
      in (case query w ctx of
            (t, None) \<Rightarrow> UseBackend r # t
          | (t, Some (Inl err)) \<Rightarrow> UseBackend r # t @ [Stdout (err @ nl)]
          | (t, Some (Inr services)) \<Rightarrow> UseBackend r # t @ render srt services))"

section \<open>Notions used to state the properties\<close>

text \<open>The services, commands and environments of the \<open>Create\<close> calls of a trace, in order.\<close>

fun creates :: "event list \<Rightarrow> (service \<times> string list \<times> string list) list" where
  "creates [] = []"
| "creates (Create svc exec env # t) = (svc, exec, env) # creates t"
| "creates (e # t) = creates t"

text \<open>
  No \<open>Create\<close>, \<open>Delete\<close>, \<open>List\<close> or \<open>Read\<close> is issued before the first \<open>Start\<close>: the
  trace is read from its head until \<open>Start\<close> is met.
\<close>

fun started_first :: "event list \<Rightarrow> bool" where
  "started_first [] = True"
| "started_first (e # t) =
     (case e of
        Start \<Rightarrow> True
      | Create svc exec env \<Rightarrow> False
      | Delete svc \<Rightarrow> False
      | List \<Rightarrow> False
      | Read opts \<Rightarrow> False
      | _ \<Rightarrow> started_first t)"








text \<open>
  Environment composition as the specification words it: split on commas, trim each
  piece, then discard the pieces that are empty, the blank ones among them.
\<close>

definition claimed_env :: "world \<Rightarrow> string list \<Rightarrow> string list" where
  "claimed_env w env =
     filter (\<lambda>e. HasPrefix e ''MICRO_'') (environ w) @
     concat (map (\<lambda>evar. filter (\<lambda>e. e \<noteq> []) (map TrimSpace (Split evar (CHR '','')))) env)"

text \<open>
  Concrete inputs: a world in which every call succeeds and SIGINT arrives, an invocation
  with a name in local mode, one with no argument and no flag, and two services.
\<close>

definition calm :: world where
  "calm = \<lparr>environ = [''MICRO_PROXY=go.micro.proxy'', ''HOME=/root''], getwd = ''/home/dev/greeter'',
     chdir_err = None, init_err = None, start_err = None, create_err = None,
     shutdown = Some SIGINT, delete_err = None, stop_err = None,
     list_resp = Inr [], read_resp = Inr []\<rparr>"

definition demo :: cli_context where
  "demo = \<lparr>Args = [''service''], name_flag = ''demo'', version_flag = ''latest'', source_flag = [],
     env_flag = [], local_flag = True, runtime_flag = False\<rparr>"

definition bare :: cli_context where
  "bare = \<lparr>Args = [], name_flag = [], version_flag = [], source_flag = [],
     env_flag = [], local_flag = False, runtime_flag = False\<rparr>"




section \<open>Environment composition\<close>

lemma Split_not_Nil: "Split s sep \<noteq> []"
  by (cases s) simp_all

lemma defaultEnv_loop_filter:
  "defaultEnv_loop env evars = env @ filter (\<lambda>e. HasPrefix e ''MICRO_'') evars"
  by (induction evars arbitrary: env) simp_all

lemma env_pieces_append:
  "env_pieces environment es = environment @ map TrimSpace (filter (\<lambda>e. e \<noteq> []) es)"
  by (induction es arbitrary: environment) simp_all

lemma env_flags_append:
  "env_flags environment env =
     environment @ concat (map (\<lambda>evar. map TrimSpace (filter (\<lambda>e. e \<noteq> []) (Split evar (CHR '','')))) env)"
  by (induction env arbitrary: environment) (simp_all add: env_pieces_append)

lemmas trim_eval = TrimSpace_def TrimLeft.simps leading_rune_def space_runes_def HasPrefix_def

lemma TrimSpace_FOO: "TrimSpace ''FOO=1'' = ''FOO=1''"
  by (simp add: trim_eval)

lemma TrimSpace_space_BAR: "TrimSpace '' BAR=2'' = ''BAR=2''"
  by (simp add: trim_eval)

lemma TrimSpace_BAR: "TrimSpace ''BAR=2'' = ''BAR=2''"
  by (simp add: trim_eval)

lemma TrimSpace_blank: "TrimSpace '' '' = []"
  by (simp add: trim_eval)

text \<open>
  C4. Composition is to discard the pieces of a flag value that are empty, the blank
  ones among them. The guard of line 132 tests a piece before it is trimmed, so on the
  flag value \<open>"FOO=1, ,BAR=2"\<close> the blank piece passes it and the code appends the empty
  string between \<open>FOO=1\<close> and \<open>BAR=2\<close>, where composition as the specification words
  it appends \<open>FOO=1\<close> and \<open>BAR=2\<close> only.
\<close>

theorem compose_env_keeps_blank_piece:
  "compose_env calm [''FOO=1, ,BAR=2''] = [''MICRO_PROXY=go.micro.proxy'', ''FOO=1'', [], ''BAR=2''] \<and>
   claimed_env calm [''FOO=1, ,BAR=2''] = [''MICRO_PROXY=go.micro.proxy'', ''FOO=1'', ''BAR=2'']"
  by (simp add: compose_env_def defaultEnv_def claimed_env_def calm_def
      TrimSpace_FOO TrimSpace_BAR TrimSpace_blank)
    (simp add: HasPrefix_def)

text \<open>
  Where no piece of a flag value is blank, the code composes the environment as the
  specification words it; the example of the specification is such an input.
\<close>

lemma TrimSpace_Nil: "TrimSpace [] = []"
  by (simp add: trim_eval)

lemma filter_trimmed:
  assumes "\<forall>e \<in> set es. e \<noteq> [] \<longrightarrow> TrimSpace e \<noteq> []"
  shows "filter (\<lambda>e. e \<noteq> []) (map TrimSpace es) = map TrimSpace (filter (\<lambda>e. e \<noteq> []) es)"
  using assms by (induction es) (auto simp: TrimSpace_Nil)

lemma compose_env_claimed:
  assumes "\<forall>evar \<in> set env. \<forall>e \<in> set (Split evar (CHR '','')). e \<noteq> [] \<longrightarrow> TrimSpace e \<noteq> []"
  shows "compose_env w env = claimed_env w env"
proof -
  have "map (\<lambda>evar. map TrimSpace (filter (\<lambda>e. e \<noteq> []) (Split evar (CHR '','')))) env =
        map (\<lambda>evar. filter (\<lambda>e. e \<noteq> []) (map TrimSpace (Split evar (CHR '','')))) env"
    using assms by (intro map_cong refl) (simp add: filter_trimmed)
  then have "concat (map (\<lambda>evar. map TrimSpace (filter (\<lambda>e. e \<noteq> []) (Split evar (CHR '','')))) env) =
        concat (map (\<lambda>evar. filter (\<lambda>e. e \<noteq> []) (map TrimSpace (Split evar (CHR '','')))) env)"
    by (rule arg_cong)
  then show ?thesis
    by (simp only: compose_env_def defaultEnv_def defaultEnv_loop_filter env_flags_append claimed_env_def
        append_Nil)
qed

lemma compose_env_example:
  "compose_env w [''FOO=1, BAR=2''] =
     filter (\<lambda>e. HasPrefix e ''MICRO_'') (environ w) @ [''FOO=1'', ''BAR=2'']"
  by (simp add: compose_env_def defaultEnv_def defaultEnv_loop_filter env_flags_append
      TrimSpace_FOO TrimSpace_space_BAR)

section \<open>Name resolution\<close>

lemma Base_nonempty: "Base p \<noteq> []"
  by (simp add: Base_def Let_def)

lemma Base_leaf:
  assumes "leaf \<noteq> []" and "CHR ''/'' \<notin> set leaf"
  shows "Base (pre @ ''/'' @ leaf) = leaf"
proof -
  have r: "rev (pre @ ''/'' @ leaf) = rev leaf @ CHR ''/'' # rev pre"
    by simp
  from assms have h: "hd (rev leaf) \<noteq> CHR ''/''"
    by (metis hd_rev last_in_set)
  with assms(1) have d: "dropWhile (\<lambda>c. c = CHR ''/'') (rev leaf @ CHR ''/'' # rev pre) = rev leaf @ CHR ''/'' # rev pre"
    by (cases "rev leaf") auto
  have t: "takeWhile (\<lambda>c. c \<noteq> CHR ''/'') (rev leaf @ CHR ''/'' # rev pre) = rev leaf"
    using assms(2) by (auto simp: takeWhile_tail)
  show ?thesis
    using assms(1) unfolding Base_def Let_def r d by (simp add: t del: rev_append)
qed

lemma Base_empty: "Base [] = ''.''"
  by (simp add: Base_def)

lemma Base_separators: "Base (replicate (Suc n) (CHR ''/'')) = ''/''"
proof -
  have "dropWhile (\<lambda>c. c = CHR ''/'') (replicate (Suc n) (CHR ''/'')) = []"
    by (rule dropWhile_eq_Nil_conv [THEN iffD2]) simp
  then show ?thesis
    by (simp add: Base_def del: replicate.simps)
qed

lemma Base_segment:
  assumes "leaf \<noteq> []" and "CHR ''/'' \<notin> set leaf" and "pre = [] \<or> last pre = CHR ''/''"
  shows "Base (pre @ leaf @ replicate n (CHR ''/'')) = leaf"
proof -
  have r: "rev (pre @ leaf @ replicate n (CHR ''/'')) = replicate n (CHR ''/'') @ rev leaf @ rev pre"
    by simp
  from assms(1,2) have h: "hd (rev leaf) \<noteq> CHR ''/''"
    by (metis hd_rev last_in_set)
  with assms(1) have "dropWhile (\<lambda>c. c = CHR ''/'') (rev leaf @ rev pre) = rev leaf @ rev pre"
    by (cases "rev leaf") auto
  then have d: "dropWhile (\<lambda>c. c = CHR ''/'') (replicate n (CHR ''/'') @ rev leaf @ rev pre) = rev leaf @ rev pre"
    by (simp add: dropWhile_append)
  have t: "takeWhile (\<lambda>c. c \<noteq> CHR ''/'') (rev leaf @ rev pre) = rev leaf"
  proof (cases "pre = []")
    case True
    with assms(2) show ?thesis by auto
  next
    case False
    with assms(3) have "hd (rev pre) = CHR ''/''"
      by (simp add: hd_rev)
    with False obtain q where "rev pre = CHR ''/'' # q"
      by (cases "rev pre") auto
    with assms(2) show ?thesis
      by (auto simp: takeWhile_tail)
  qed
  from assms(1) have "pre @ leaf @ replicate n (CHR ''/'') \<noteq> []"
    by simp
  then show ?thesis
    using assms(1) unfolding Base_def Let_def r d by (simp add: t del: rev_append)
qed

lemma path_shape:
  "p = [] \<or> (\<exists>n. p = replicate (Suc n) (CHR ''/'')) \<or>
   (\<exists>pre leaf n. leaf \<noteq> [] \<and> CHR ''/'' \<notin> set leaf \<and> (pre = [] \<or> last pre = CHR ''/'') \<and>
      p = pre @ leaf @ replicate n (CHR ''/''))"
proof -
  define s where "s = takeWhile (\<lambda>c. c = CHR ''/'') (rev p)"
  define r where "r = dropWhile (\<lambda>c. c = CHR ''/'') (rev p)"
  define l where "l = takeWhile (\<lambda>c. c \<noteq> CHR ''/'') r"
  define q where "q = dropWhile (\<lambda>c. c \<noteq> CHR ''/'') r"
  have "\<forall>c \<in> set s. c = CHR ''/''"
    unfolding s_def by (auto dest: set_takeWhileD)
  then have s: "s = replicate (length s) (CHR ''/'')"
    by (simp add: replicate_length_same)
  have "rev p = s @ l @ q"
    by (simp add: s_def r_def l_def q_def)
  then have p: "p = rev q @ rev l @ replicate (length s) (CHR ''/'')"
    using s by (metis rev_append rev_rev_ident rev_replicate append.assoc)
  show ?thesis
  proof (cases "r = []")
    case True
    then have "p = replicate (length s) (CHR ''/'')"
      using p by (simp add: l_def q_def)
    then show ?thesis
      by (cases "length s") auto
  next
    case False
    then have "hd r \<noteq> CHR ''/''"
      unfolding r_def by (metis (mono_tags, lifting) hd_dropWhile)
    with False have "l \<noteq> []"
      unfolding l_def by (cases r) auto
    moreover have "CHR ''/'' \<notin> set l"
      unfolding l_def by (auto dest: set_takeWhileD)
    moreover have "rev q = [] \<or> last (rev q) = CHR ''/''"
    proof (cases "q = []")
      case True
      then show ?thesis by simp
    next
      case False
      then have "hd q = CHR ''/''"
        unfolding q_def using hd_dropWhile [of "\<lambda>c. c \<noteq> CHR ''/''" r] by auto
      with False show ?thesis
        by (simp add: last_rev)
    qed
    ultimately show ?thesis
      using p by (metis rev_is_Nil_conv set_rev)
  qed
qed

section \<open>The Create call of runService\<close>

lemma creates_append: "creates (t @ u) = creates t @ creates u"
  by (induction t rule: creates.induct) simp_all

lemma exec_update: "[a, b, c][2 := x] = [a, b, x]"
  by (simp add: numeral_2_eq_2)

lemmas run_defs = runService_def select_backend_def await_shutdown_def resolve_source_def resolve_name_def

lemma select_backend_Inl:
  "select_backend w l n v src = Inl t \<Longrightarrow> creates t = []"
  by (auto simp: select_backend_def Let_def split: option.splits if_splits)

lemma select_backend_Inr:
  "select_backend w l n v src = Inr (t, exec) \<Longrightarrow>
     creates t = [] \<and>
     exec = (if l then (if src \<noteq> [] \<and> chdir_err w \<noteq> None
                       then [''go'', ''run'', src] else [''go'', ''run'', ''.''])
             else [''go'', ''run'', src])"
  by (auto simp: select_backend_def Let_def exec_update split: option.splits if_splits)

lemma await_shutdown_creates: "await_shutdown w svc = (t, out) \<Longrightarrow> creates t = []"
  by (auto simp: await_shutdown_def split: option.splits)

lemma run_creates:
  assumes "c \<in> set (creates (fst (runService w ctx)))"
  shows "c = (\<lparr>Name = resolve_name w (name_flag ctx) (resolve_source (Args ctx) (source_flag ctx)),
         Version = version_flag ctx,
         Source = resolve_source (Args ctx) (source_flag ctx),
         Metadata = Map.empty\<rparr>,
        (if local_flag ctx
         then (if resolve_source (Args ctx) (source_flag ctx) \<noteq> [] \<and> chdir_err w \<noteq> None
               then [''go'', ''run'', resolve_source (Args ctx) (source_flag ctx)]
               else [''go'', ''run'', ''.''])
         else [''go'', ''run'', resolve_source (Args ctx) (source_flag ctx)]),
        compose_env w (env_flag ctx))"
proof (cases "select_backend w (local_flag ctx)
    (resolve_name w (name_flag ctx) (resolve_source (Args ctx) (source_flag ctx)))
    (version_flag ctx) (resolve_source (Args ctx) (source_flag ctx))")
  case (Inl t)
  with assms select_backend_Inl [OF Inl] show ?thesis
    by (simp add: runService_def Let_def split: if_splits)
next
  case (Inr p)
  obtain t exec where p: "p = (t, exec)"
    by (cases p)
  from Inr p select_backend_Inr have "creates t = []" and
    "exec = (if local_flag ctx
         then (if resolve_source (Args ctx) (source_flag ctx) \<noteq> [] \<and> chdir_err w \<noteq> None
               then [''go'', ''run'', resolve_source (Args ctx) (source_flag ctx)]
               else [''go'', ''run'', ''.''])
         else [''go'', ''run'', resolve_source (Args ctx) (source_flag ctx)])"
    by blast+
  with assms Inr p show ?thesis
    by (auto simp: runService_def Let_def creates_append
        split: if_splits option.splits prod.splits dest: await_shutdown_creates)
qed

lemma run_creates_name:
  assumes "c \<in> set (creates (fst (runService w ctx)))"
  shows "Name (fst c) = resolve_name w (name_flag ctx) (resolve_source (Args ctx) (source_flag ctx))"
  using run_creates [OF assms] by simp

text \<open>
  C7. With an empty name flag the resolved name is the last path element of \<open>p\<close>, the
  source when it is non-empty and the working directory otherwise: \<open>leaf\<close> when \<open>p\<close>
  ends with the separator-free, non-empty \<open>leaf\<close> and any number of trailing separators,
  \<open>leaf\<close> standing alone or after a separator (so a source \<open>pre/leaf\<close> gives \<open>leaf\<close>);
  \<open>/\<close> when \<open>p\<close> consists of separators; \<open>.\<close> when \<open>p\<close> is empty. By \<open>path_shape\<close> every
  path has one of these shapes. The name is never empty, and it is the name of the service
  given to \<open>Create\<close>.
\<close>

theorem run_name_is_last_segment:
  assumes "name_flag ctx = []" and "p = (if src \<noteq> [] then src else getwd w)"
  shows
    "resolve_name w (name_flag ctx) src = (if src \<noteq> [] then Base src else Base (getwd w)) \<and>
     resolve_name w (name_flag ctx) src \<noteq> [] \<and>
     (leaf \<noteq> [] \<and> CHR ''/'' \<notin> set leaf \<longrightarrow>
        resolve_name w (name_flag ctx) (pre @ ''/'' @ leaf) = leaf) \<and>
     (leaf \<noteq> [] \<and> CHR ''/'' \<notin> set leaf \<and> (pre = [] \<or> last pre = CHR ''/'') \<and>
      p = pre @ leaf @ replicate n (CHR ''/'') \<longrightarrow>
        resolve_name w (name_flag ctx) src = leaf) \<and>
     (p = replicate (Suc n) (CHR ''/'') \<longrightarrow> resolve_name w (name_flag ctx) src = ''/'') \<and>
     (p = [] \<longrightarrow> resolve_name w (name_flag ctx) src = ''.'') \<and>
     (\<forall>c \<in> set (creates (fst (runService w ctx))).
        Name (fst c) = resolve_name w (name_flag ctx) (resolve_source (Args ctx) (source_flag ctx)))"
proof -
  have n: "resolve_name w [] src = Base p"
    using assms(2) by (simp add: resolve_name_def)
  have "resolve_name w [] src = (if src \<noteq> [] then Base src else Base (getwd w))"
    by (simp add: resolve_name_def)
  moreover have "resolve_name w [] src \<noteq> []"
    by (simp add: resolve_name_def Base_nonempty)
  moreover have "leaf \<noteq> [] \<and> CHR ''/'' \<notin> set leaf \<longrightarrow> resolve_name w [] (pre @ ''/'' @ leaf) = leaf"
    using Base_leaf [of leaf pre] by (simp add: resolve_name_def)
  moreover have "leaf \<noteq> [] \<and> CHR ''/'' \<notin> set leaf \<and> (pre = [] \<or> last pre = CHR ''/'') \<and>
      p = pre @ leaf @ replicate n (CHR ''/'') \<longrightarrow> resolve_name w [] src = leaf"
    using Base_segment [of leaf pre n] n by auto
  moreover have "p = replicate (Suc n) (CHR ''/'') \<longrightarrow> resolve_name w [] src = ''/''"
    using Base_separators [of n] n by auto
  moreover have "p = [] \<longrightarrow> resolve_name w [] src = ''.''"
    using Base_empty n by auto
  moreover have "\<forall>c \<in> set (creates (fst (runService w ctx))).
        Name (fst c) = resolve_name w (name_flag ctx) (resolve_source (Args ctx) (source_flag ctx))"
    using run_creates_name by blast
  ultimately show ?thesis
    using assms(1) by simp
qed

theorem run_name_is_last_segment_witness:
  "resolve_name calm [] ''github.com/acme/svc/'' = ''svc'' \<and>
   resolve_name calm [] ''greeter'' = ''greeter'' \<and>
   resolve_name calm [] [] = ''greeter'' \<and>
   resolve_name calm [] ''//'' = ''/'' \<and>
   map (\<lambda>c. Name (fst c))
     (creates (fst (runService calm (demo\<lparr>Args := [''github.com/acme/svc''], name_flag := []\<rparr>)))) = [''svc'']"
proof -
  let ?ctx = "demo\<lparr>Args := [''github.com/acme/svc''], name_flag := []\<rparr>"
  have e: "name_flag ?ctx = []"
    by (simp add: demo_def)
  have c: "\<exists>c. creates (fst (runService calm ?ctx)) = [c]"
    by (simp add: run_defs calm_def demo_def Let_def creates_append)
  have s: "resolve_source (Args ?ctx) (source_flag ?ctx) = ''github.com/acme'' @ ''/'' @ ''svc''"
    by (simp add: demo_def resolve_source_def)
  have g: "getwd calm = ''/home/dev/'' @ ''greeter'' @ replicate 0 (CHR ''/'')"
    by (simp add: calm_def)
  have a: "resolve_name calm [] ''github.com/acme/svc/'' = ''svc''"
    using run_name_is_last_segment [OF e, where w = calm and src = "''github.com/acme/svc/''" and p = "''github.com/acme/svc/''"
        and leaf = "''svc''" and pre = "''github.com/acme/''" and n = 1]
    unfolding e by auto
  have b: "resolve_name calm [] ''greeter'' = ''greeter''"
    using run_name_is_last_segment [OF e, where w = calm and src = "''greeter''" and p = "''greeter''"
        and leaf = "''greeter''" and pre = "[]" and n = 0]
    unfolding e by auto
  have d: "resolve_name calm [] ''//'' = ''/''"
    using run_name_is_last_segment [OF e, where w = calm and src = "''//''" and p = "''//''" and n = 1
        and leaf = "[]" and pre = "[]"]
    unfolding e by auto
  have f: "resolve_name calm [] [] = ''greeter'' \<and>
    map (\<lambda>c. Name (fst c)) (creates (fst (runService calm ?ctx))) = [''svc'']"
    using run_name_is_last_segment [OF e, where w = calm and src = "[]" and p = "getwd calm"
        and leaf = "''greeter''" and pre = "''/home/dev/''" and n = 0] c g
    unfolding s e
    using run_name_is_last_segment [OF e, where w = calm and src = "[]" and p = "getwd calm"
        and leaf = "''svc''" and pre = "''github.com/acme''" and n = 0]
    unfolding e by auto
  from a b d f show ?thesis
    by simp
qed

section \<open>Shutdown in local mode\<close>

text \<open>
  C1. In local mode, once the signal has arrived and \<open>Delete\<close> has failed, the command
  prints the error and returns, and \<open>Stop\<close> is not called; whenever \<open>Stop\<close> is called,
  the mode is local and \<open>Delete\<close> has succeeded.
\<close>

theorem run_delete_failure_skips_stop:
  "(Args ctx \<noteq> [] \<and> local_flag ctx \<and> init_err w = None \<and> start_err w = None \<and> create_err w = None \<and>
    shutdown w = Some sg \<and> delete_err w = Some err \<longrightarrow>
      (\<exists>t svc. fst (runService w ctx) = t @ [Notify, Receive sg, Delete svc, Stdout (err @ nl)]) \<and>
      Stop \<notin> set (fst (runService w ctx)) \<and> snd (runService w ctx) = Returned) \<and>
   (Stop \<in> set (fst (runService w ctx)) \<longrightarrow> local_flag ctx \<and> delete_err w = None)"
  by (auto simp: run_defs Let_def split: option.splits sum.splits if_splits prod.splits)

theorem run_delete_failure_skips_stop_witness:
  "(\<exists>t svc. fst (runService (calm\<lparr>delete_err := Some ''boom''\<rparr>) demo) =
      t @ [Notify, Receive SIGINT, Delete svc, Stdout (''boom'' @ nl)]) \<and>
   Stop \<notin> set (fst (runService (calm\<lparr>delete_err := Some ''boom''\<rparr>) demo)) \<and>
   snd (runService (calm\<lparr>delete_err := Some ''boom''\<rparr>) demo) = Returned \<and>
   Stop \<in> set (fst (runService calm demo)) \<and> delete_err calm = None"
proof -
  have "Stop \<in> set (fst (runService calm demo))"
    by (simp add: run_defs calm_def demo_def Let_def)
  moreover have "delete_err calm = None"
    by (simp add: calm_def)
  ultimately show ?thesis
    using run_delete_failure_skips_stop [where ctx = demo and w = "calm\<lparr>delete_err := Some ''boom''\<rparr>" and sg = SIGINT and err = "''boom''"]
    by (simp add: calm_def demo_def)
qed

section \<open>Remote mode without a source\<close>

text \<open>
  C2. In remote mode with an empty resolved source the command prints the usage message
  and returns; no \<open>Create\<close> is issued (nor any other call on the backend).
\<close>

theorem run_remote_empty_source:
  "\<not> local_flag ctx \<Longrightarrow> resolve_source (Args ctx) (source_flag ctx) = [] \<Longrightarrow>
     snd (runService w ctx) = Returned \<and>
     last (fst (runService w ctx)) = Stdout (RunUsage @ nl) \<and>
     creates (fst (runService w ctx)) = [] \<and>
     (Args ctx \<noteq> [] \<longrightarrow>
        runService w ctx = ([PluginsInit, UseBackend Remote, Stdout (RunUsage @ nl)], Returned))"
  by (simp add: runService_def select_backend_def Let_def)

theorem run_remote_empty_source_witness:
  "runService calm (demo\<lparr>local_flag := False\<rparr>) =
     ([PluginsInit, UseBackend Remote, Stdout (RunUsage @ nl)], Returned) \<and>
   creates (fst (runService calm (demo\<lparr>local_flag := False\<rparr>))) = []"
  using run_remote_empty_source [of "demo\<lparr>local_flag := False\<rparr>" calm]
  by (simp add: demo_def resolve_source_def)

section \<open>Start and the lifecycle operations\<close>

text \<open>
  The sentence of C3 as the specification has it fails for kill: the command selects the
  backend and calls \<open>Delete\<close>, and \<open>Start\<close> is never called.
\<close>

theorem kill_deletes_without_start:
  "killService calm (demo\<lparr>local_flag := False\<rparr>) =
     [UseBackend Remote, Delete \<lparr>Name = ''demo'', Version = ''latest'', Source = [], Metadata = Map.empty\<rparr>] \<and>
   \<not> started_first (killService calm (demo\<lparr>local_flag := False\<rparr>))"
  by (simp add: killService_def demo_def calm_def)

lemma run_started_first: "started_first (fst (runService w ctx))"
  by (simp add: run_defs Let_def split: option.splits sum.splits prod.splits)

lemma kill_never_starts: "Start \<notin> set (killService w ctx)"
  by (simp add: killService_def Let_def split: option.splits list.splits)

lemma get_never_starts: "Start \<notin> set (getService srt w ctx)"
  by (auto simp: getService_def query_def render_def Let_def split: option.splits sum.splits list.splits)

text \<open>
  C3, amended. In every run invocation, in either mode, \<open>Start\<close> is called before any
  \<open>Create\<close>, \<open>Delete\<close>, \<open>List\<close> or \<open>Read\<close>; kill and ps/get never call \<open>Start\<close>.
\<close>

theorem run_starts_before_operations:
  "started_first (fst (runService w ctx)) \<and>
   Start \<notin> set (killService w ctx) \<and>
   Start \<notin> set (getService srt w ctx)"
  using run_started_first kill_never_starts get_never_starts by simp

section \<open>The command given to Create\<close>

text \<open>
  The sentence of C8 as the specification has it fails when the source exists on disk:
  \<open>os.Chdir\<close> succeeds, and the command stays \<open>go run .\<close> although the source is
  non-empty.
\<close>

theorem run_local_command_not_rewritten:
  "runService calm (demo\<lparr>source_flag := ''/srv/greeter''\<rparr>) =
     ([PluginsInit, UseBackend Local, Chdir ''/srv/greeter'',
       InitNotifier ''demo'' ''latest'' ''/srv/greeter'', Start,
       Create \<lparr>Name = ''demo'', Version = ''latest'', Source = ''/srv/greeter'', Metadata = Map.empty\<rparr>
         [''go'', ''run'', ''.''] [''MICRO_PROXY=go.micro.proxy''],
       Notify, Receive SIGINT,
       Delete \<lparr>Name = ''demo'', Version = ''latest'', Source = ''/srv/greeter'', Metadata = Map.empty\<rparr>,
       Stop], Returned)"
  by (simp add: run_defs calm_def demo_def Let_def compose_env_def defaultEnv_def HasPrefix_def)

text \<open>
  C8, amended. In local mode the command given to \<open>Create\<close> is \<open>go run .\<close>, with the
  source in place of the dot exactly when the source is non-empty and changing the working
  directory to it fails; in remote mode it is \<open>go run\<close> followed by the source.
\<close>

theorem run_command_target:
  "\<forall>c \<in> set (creates (fst (runService w ctx))).
     fst (snd c) =
       (if local_flag ctx
        then (if resolve_source (Args ctx) (source_flag ctx) \<noteq> [] \<and> chdir_err w \<noteq> None
              then [''go'', ''run'', resolve_source (Args ctx) (source_flag ctx)]
              else [''go'', ''run'', ''.''])
        else [''go'', ''run'', resolve_source (Args ctx) (source_flag ctx)])"
proof
  fix c
  assume "c \<in> set (creates (fst (runService w ctx)))"
  from run_creates [OF this] show "fst (snd c) =
       (if local_flag ctx
        then (if resolve_source (Args ctx) (source_flag ctx) \<noteq> [] \<and> chdir_err w \<noteq> None
              then [''go'', ''run'', resolve_source (Args ctx) (source_flag ctx)]
              else [''go'', ''run'', ''.''])
        else [''go'', ''run'', resolve_source (Args ctx) (source_flag ctx)])"
    by simp
qed

theorem run_command_target_witness:
  "map (\<lambda>c. fst (snd c))
     (creates (fst (runService (calm\<lparr>chdir_err := Some ''no such file or directory''\<rparr>)
        (demo\<lparr>source_flag := ''github.com/acme/svc''\<rparr>)))) = [[''go'', ''run'', ''github.com/acme/svc'']] \<and>
   map (\<lambda>c. fst (snd c))
     (creates (fst (runService calm (demo\<lparr>source_flag := ''github.com/acme/svc''\<rparr>)))) = [[''go'', ''run'', ''.'']] \<and>
   map (\<lambda>c. fst (snd c))
     (creates (fst (runService calm (demo\<lparr>source_flag := ''github.com/acme/svc'', local_flag := False\<rparr>)))) =
       [[''go'', ''run'', ''github.com/acme/svc'']]"
proof -
  let ?w = "calm\<lparr>chdir_err := Some ''no such file or directory''\<rparr>"
  let ?ctx = "demo\<lparr>source_flag := ''github.com/acme/svc''\<rparr>"
  let ?rem = "demo\<lparr>source_flag := ''github.com/acme/svc'', local_flag := False\<rparr>"
  have a: "\<exists>c. creates (fst (runService ?w ?ctx)) = [c]"
    by (simp add: run_defs calm_def demo_def Let_def creates_append)
  have b: "\<exists>c. creates (fst (runService calm ?ctx)) = [c]"
    by (simp add: run_defs calm_def demo_def Let_def creates_append)
  have c: "\<exists>c. creates (fst (runService calm ?rem)) = [c]"
    by (simp add: run_defs calm_def demo_def Let_def creates_append)
  have s: "resolve_source (Args ?ctx) (source_flag ?ctx) = ''github.com/acme/svc''"
    "resolve_source (Args ?rem) (source_flag ?rem) = ''github.com/acme/svc''"
    by (simp_all add: demo_def resolve_source_def)
  have l: "local_flag ?ctx" "\<not> local_flag ?rem" "chdir_err ?w \<noteq> None" "chdir_err calm = None"
    by (simp_all add: demo_def calm_def)
  show ?thesis
    using run_command_target [of ?w ?ctx] run_command_target [of calm ?ctx] run_command_target [of calm ?rem] a b c
    unfolding s using l by auto
qed

section \<open>A remote run of github.com/acme/svc\<close>

text \<open>
  The scenario of C9 as the specification has it fails: with the source flag alone there
  is no positional argument, and the command prints the usage message and returns.
\<close>

theorem run_source_flag_only_prints_usage:
  "runService calm (bare\<lparr>source_flag := ''github.com/acme/svc''\<rparr>) =
     ([PluginsInit, Stdout (RunUsage @ nl)], Returned)"
  by (simp add: runService_def bare_def)

lemma Base_svc: "Base ''github.com/acme/svc'' = ''svc''"
  by (simp add: Base_def)

text \<open>
  C9, amended. In remote mode, with the positional argument \<open>service\<close>, the source flag
  \<open>github.com/acme/svc\<close> and no name flag, the name is \<open>svc\<close>, \<open>Create\<close> is called with
  the command \<open>go run github.com/acme/svc\<close>, and once \<open>Start\<close> and \<open>Create\<close> have succeeded
  the command returns without waiting for a signal; with no positional argument it prints
  the usage message and returns.
\<close>

theorem run_remote_acme_svc:
  assumes "start_err w = None" and "create_err w = None"
    and "source_flag ctx = ''github.com/acme/svc''"
    and "name_flag ctx = []" and "\<not> local_flag ctx"
  shows "(Args ctx = ''service'' # rest \<longrightarrow>
      runService w ctx =
        ([PluginsInit, UseBackend Remote, Start,
          Create \<lparr>Name = ''svc'', Version = version_flag ctx, Source = ''github.com/acme/svc'',
              Metadata = Map.empty\<rparr>
            [''go'', ''run'', ''github.com/acme/svc''] (compose_env w (env_flag ctx))],
         Returned)) \<and>
    (Args ctx = [] \<longrightarrow> runService w ctx = ([PluginsInit, Stdout (RunUsage @ nl)], Returned))"
  using assms by (auto simp: run_defs Let_def Base_svc)

theorem run_remote_acme_svc_witness:
  "runService calm (bare\<lparr>Args := [''service''], source_flag := ''github.com/acme/svc''\<rparr>) =
     ([PluginsInit, UseBackend Remote, Start,
       Create \<lparr>Name = ''svc'', Version = [], Source = ''github.com/acme/svc'', Metadata = Map.empty\<rparr>
         [''go'', ''run'', ''github.com/acme/svc''] [''MICRO_PROXY=go.micro.proxy'']],
      Returned)"
proof -
  have e: "compose_env calm [] = [''MICRO_PROXY=go.micro.proxy'']"
    by (simp add: compose_env_def defaultEnv_def calm_def HasPrefix_def)
  show ?thesis
    using run_remote_acme_svc [of calm "bare\<lparr>Args := [''service''], source_flag := ''github.com/acme/svc''\<rparr>" "[]"] e
    by (simp add: bare_def calm_def)
qed

section \<open>The service table\<close>






















end
